theory Spec2Isabelle
  imports Complex_Main
begin

section \<open>Python values used by the portfolio tracker\<close>

text \<open>
  The program is \<^verbatim>\<open>main.py\<close>: a console loop that collects holdings, two
  arithmetic passes over the collected list and a report. Its numbers are Python
  \<^verbatim>\<open>int\<close> (unbounded, modelled by \<^typ>\<open>int\<close>) and Python \<^verbatim>\<open>float\<close>
  (IEEE 754 binary64, round to nearest, ties to even). A float is modelled by the
  rational it denotes, or one of the three special values. The sign of a zero is
  not tracked: no operation of this program tells \<^verbatim>\<open>-0.0\<close> from \<^verbatim>\<open>0.0\<close>
  except the sign printed by a format, and no negative number arises from the
  collector. The integer \<^verbatim>\<open>0\<close> that \<^verbatim>\<open>sum\<close> returns for an empty list is
  identified with the float \<^verbatim>\<open>0.0\<close>.

  The string functions below model \<^verbatim>\<open>str.strip\<close>, \<^verbatim>\<open>str.upper\<close>,
  \<^verbatim>\<open>str.lower\<close> and \<^verbatim>\<open>int\<close> on ASCII text, where they need no table of the
  Unicode database. The theorems about console lines are stated for ASCII lines
  (\<open>ascii_line\<close>, \<open>ascii_input\<close>), or for lines that a hypothesis confines to
  ASCII.
\<close>

datatype py_error = EOFError | ValueError | OverflowError | ZeroDivisionError | OSError string

datatype pyfloat = Finite rat | PInf | NInf | NaN

text \<open>
  The interpreter that runs the program. The builtin \<^verbatim>\<open>sum\<close> adds floats one
  after the other before CPython 3.12 and with a compensated summation since.
\<close>

datatype cpython = Before_3_12 | Since_3_12

subsection \<open>Rounding to binary64\<close>

text \<open>Round to the nearest integer, ties to the even one.\<close>

definition rne :: "rat \<Rightarrow> int" where
  "rne x = (let f = \<lfloor>x\<rfloor>; d = x - of_int f in
     if d < 1/2 then f else if 1/2 < d then f + 1 else if even f then f else f + 1)"

text \<open>The number of binary digits of a positive integer (Python's \<^verbatim>\<open>int.bit_length\<close>).\<close>

function bit_length :: "int \<Rightarrow> int" where
  "bit_length n = (if n \<le> 0 then 0 else 1 + bit_length (n div 2))"
  by pat_completeness auto
termination
  by (relation "measure nat") auto

declare bit_length.simps [simp del]

text \<open>For \<open>0 < x\<close>, the exponent \<open>e\<close> with \<open>2\<^sup>e \<le> x < 2\<^sup>e\<^sup>+\<^sup>1\<close>.\<close>

definition ilog2 :: "rat \<Rightarrow> int" where
  "ilog2 x = (if 1 \<le> x then bit_length \<lfloor>x\<rfloor> - 1
              else - bit_length (\<lceil>1 / x\<rceil> - 1))"

definition pow2 :: "int \<Rightarrow> rat" where
  "pow2 k = 2 powi k"

text \<open>
  The spacing of the binary64 numbers around a positive rational \<open>a\<close>: 53
  significant bits, so \<open>2\<^sup>e\<^sup>-\<^sup>5\<^sup>2\<close> where \<open>e\<close> is the exponent of \<open>a\<close>, and never
  below \<open>2\<^sup>-\<^sup>1\<^sup>0\<^sup>7\<^sup>4\<close> (subnormal numbers).
\<close>

definition quantum :: "rat \<Rightarrow> rat" where
  "quantum a = pow2 (max (ilog2 a) (- 1022) - 52)"

text \<open>The multiple of the spacing nearest to a positive rational, ties to even.\<close>

definition nearest :: "rat \<Rightarrow> rat" where
  "nearest a = of_int (rne (a / quantum a)) * quantum a"

text \<open>
  The binary64 value of a rational: the nearest one, and an infinity once the
  rounded magnitude reaches \<open>2\<^sup>1\<^sup>0\<^sup>2\<^sup>4\<close>.
\<close>

definition round_double :: "rat \<Rightarrow> pyfloat" where
  "round_double x = (if x = 0 then Finite 0 else
     let r = nearest \<bar>x\<bar>
     in if pow2 1024 \<le> r then (if 0 < x then PInf else NInf)
        else Finite (if 0 < x then r else - r))"

text \<open>
  \<^verbatim>\<open>float(n)\<close> for an integer, as the mixed operation \<^verbatim>\<open>int * float\<close> applies it:
  correctly rounded, and \<^verbatim>\<open>OverflowError\<close> when the integer is too large.
\<close>

definition float_of_int :: "int \<Rightarrow> py_error + pyfloat" where
  "float_of_int n = (case round_double (of_int n) of
     Finite r \<Rightarrow> Inr (Finite r) | _ \<Rightarrow> Inl OverflowError)"

fun fmul :: "pyfloat \<Rightarrow> pyfloat \<Rightarrow> pyfloat" where
  "fmul NaN _ = NaN"
| "fmul _ NaN = NaN"
| "fmul (Finite a) (Finite b) = round_double (a * b)"
| "fmul (Finite a) PInf = (if a = 0 then NaN else if 0 < a then PInf else NInf)"
| "fmul (Finite a) NInf = (if a = 0 then NaN else if 0 < a then NInf else PInf)"
| "fmul PInf (Finite b) = (if b = 0 then NaN else if 0 < b then PInf else NInf)"
| "fmul NInf (Finite b) = (if b = 0 then NaN else if 0 < b then NInf else PInf)"
| "fmul PInf PInf = PInf"
| "fmul PInf NInf = NInf"
| "fmul NInf PInf = NInf"
| "fmul NInf NInf = PInf"

fun fadd :: "pyfloat \<Rightarrow> pyfloat \<Rightarrow> pyfloat" where
  "fadd NaN _ = NaN"
| "fadd _ NaN = NaN"
| "fadd (Finite a) (Finite b) = round_double (a + b)"
| "fadd (Finite a) PInf = PInf"
| "fadd (Finite a) NInf = NInf"
| "fadd PInf (Finite b) = PInf"
| "fadd NInf (Finite b) = NInf"
| "fadd PInf PInf = PInf"
| "fadd NInf NInf = NInf"
| "fadd PInf NInf = NaN"
| "fadd NInf PInf = NaN"

text \<open>Python's float division raises \<^verbatim>\<open>ZeroDivisionError\<close> on a zero divisor.\<close>

fun fdiv :: "pyfloat \<Rightarrow> pyfloat \<Rightarrow> py_error + pyfloat" where
  "fdiv a (Finite b) = (if b = 0 then Inl ZeroDivisionError else
     case a of
       Finite x \<Rightarrow> Inr (round_double (x / b))
     | PInf \<Rightarrow> Inr (if 0 < b then PInf else NInf)
     | NInf \<Rightarrow> Inr (if 0 < b then NInf else PInf)
     | NaN \<Rightarrow> Inr NaN)"
| "fdiv NaN _ = Inr NaN"
| "fdiv _ NaN = Inr NaN"
| "fdiv (Finite a) _ = Inr (Finite 0)"
| "fdiv _ _ = Inr NaN"

fun fneg :: "pyfloat \<Rightarrow> pyfloat" where
  "fneg (Finite a) = Finite (- a)"
| "fneg PInf = NInf"
| "fneg NInf = PInf"
| "fneg NaN = NaN"

definition fsub :: "pyfloat \<Rightarrow> pyfloat \<Rightarrow> pyfloat" where
  "fsub a b = fadd a (fneg b)"

text \<open>The C test \<^verbatim>\<open>fabs(a) >= fabs(b)\<close>: false when either is NaN.\<close>

fun fabs_ge :: "pyfloat \<Rightarrow> pyfloat \<Rightarrow> bool" where
  "fabs_ge NaN _ = False"
| "fabs_ge _ NaN = False"
| "fabs_ge (Finite a) (Finite b) = (\<bar>b\<bar> \<le> \<bar>a\<bar>)"
| "fabs_ge (Finite a) _ = False"
| "fabs_ge _ _ = True"

definition is_finite :: "pyfloat \<Rightarrow> bool" where
  "is_finite x = (case x of Finite r \<Rightarrow> True | _ \<Rightarrow> False)"

text \<open>\<^verbatim>\<open>int * float\<close>: the integer is converted first, then the floats are multiplied.\<close>

definition int_times_float :: "int \<Rightarrow> pyfloat \<Rightarrow> py_error + pyfloat" where
  "int_times_float n x = (case float_of_int n of
     Inl e \<Rightarrow> Inl e | Inr f \<Rightarrow> Inr (fmul f x))"

text \<open>\<^verbatim>\<open>x == 0\<close> on a float: true for a zero only (not for NaN).\<close>

definition is_zero :: "pyfloat \<Rightarrow> bool" where
  "is_zero x = (case x of Finite r \<Rightarrow> r = 0 | _ \<Rightarrow> False)"

text \<open>\<^verbatim>\<open>0 < x\<close> on a float: false for NaN.\<close>

definition is_positive :: "pyfloat \<Rightarrow> bool" where
  "is_positive x = (case x of Finite r \<Rightarrow> 0 < r | PInf \<Rightarrow> True | _ \<Rightarrow> False)"

text \<open>\<^verbatim>\<open>c <= x\<close> for a float \<^verbatim>\<open>x\<close> and a rational bound: false for NaN.\<close>

definition float_ge :: "pyfloat \<Rightarrow> rat \<Rightarrow> bool" where
  "float_ge x c = (case x of Finite r \<Rightarrow> c \<le> r | PInf \<Rightarrow> True | _ \<Rightarrow> False)"

subsection \<open>Strings\<close>

definition is_space :: "char \<Rightarrow> bool" where
  "is_space c = (let n = of_char c :: nat in (9 \<le> n \<and> n \<le> 13) \<or> (28 \<le> n \<and> n \<le> 32))"

text \<open>A line of ASCII characters.\<close>

definition ascii_line :: "string \<Rightarrow> bool" where
  "ascii_line s = list_all (\<lambda>c. (of_char c :: nat) < 128) s"

definition strip :: "string \<Rightarrow> string" where
  "strip s = rev (dropWhile is_space (rev (dropWhile is_space s)))"

definition upper_char :: "char \<Rightarrow> char" where
  "upper_char c = (let n = of_char c :: nat in
     if 97 \<le> n \<and> n \<le> 122 then char_of (n - 32) else c)"

definition upper :: "string \<Rightarrow> string" where
  "upper s = map upper_char s"

definition lower_char :: "char \<Rightarrow> char" where
  "lower_char c = (let n = of_char c :: nat in
     if 65 \<le> n \<and> n \<le> 90 then char_of (n + 32) else c)"

definition lower :: "string \<Rightarrow> string" where
  "lower s = map lower_char s"

definition is_digit :: "char \<Rightarrow> bool" where
  "is_digit c = (let n = of_char c :: nat in 48 \<le> n \<and> n \<le> 57)"

definition digit_val :: "char \<Rightarrow> int" where
  "digit_val c = int (of_char c) - 48"

text \<open>
  The digits of an integer literal as \<^verbatim>\<open>int()\<close> accepts them: at least one digit,
  single underscores only between two digits. The flag says whether the previous
  character was a digit.
\<close>

fun digits_ok :: "bool \<Rightarrow> string \<Rightarrow> bool" where
  "digits_ok prev [] = prev"
| "digits_ok prev (c # cs) =
     (if is_digit c then digits_ok True cs
      else c = CHR ''_'' \<and> prev \<and> digits_ok False cs)"

text \<open>The default of \<^verbatim>\<open>sys.int_max_str_digits\<close>: longer literals raise \<^verbatim>\<open>ValueError\<close>.\<close>

definition int_max_str_digits :: nat where
  "int_max_str_digits = 4300"

text \<open>\<^verbatim>\<open>int(s)\<close> in base 10; \<open>None\<close> stands for \<^verbatim>\<open>ValueError\<close>, its only exception.\<close>

definition py_int :: "string \<Rightarrow> int option" where
  "py_int s = (let t = strip s;
       neg = (t \<noteq> [] \<and> hd t = CHR ''-'');
       body = (if t \<noteq> [] \<and> (hd t = CHR ''-'' \<or> hd t = CHR ''+'') then tl t else t);
       ds = filter is_digit body
     in if \<not> digits_ok False body \<or> int_max_str_digits < length ds then None
        else let n = foldl (\<lambda>a c. 10 * a + digit_val c) 0 ds
             in Some (if neg then - n else n))"

subsection \<open>Formatting\<close>

definition digit_char :: "int \<Rightarrow> char" where
  "digit_char d = char_of (48 + d)"

function digits_of :: "int \<Rightarrow> string" where
  "digits_of n = (if n < 10 then [digit_char n] else digits_of (n div 10) @ [digit_char (n mod 10)])"
  by pat_completeness auto
termination
  by (relation "measure nat") auto

declare digits_of.simps [simp del]

text \<open>\<^verbatim>\<open>str(n)\<close> of an integer.\<close>

definition str_int :: "int \<Rightarrow> string" where
  "str_int n = (if n < 0 then CHR ''-'' # digits_of (- n) else digits_of n)"

text \<open>The thousands separator of the format \<^verbatim>\<open>,\<close>.\<close>

function group3 :: "string \<Rightarrow> string" where
  "group3 s = (if length s \<le> 3 then s
               else group3 (take (length s - 3) s) @ CHR '','' # drop (length s - 3) s)"
  by pat_completeness auto
termination
  by (relation "measure length") auto

declare group3.simps [simp del]

text \<open>
  The formats \<^verbatim>\<open>.2f\<close> and \<^verbatim>\<open>,.2f\<close>: the exact value rounded to two decimals,
  ties to even.
\<close>

definition format_2f :: "bool \<Rightarrow> pyfloat \<Rightarrow> string" where
  "format_2f comma x = (case x of
       NaN \<Rightarrow> ''nan''
     | PInf \<Rightarrow> ''inf''
     | NInf \<Rightarrow> ''-inf''
     | Finite r \<Rightarrow>
         (let c = rne (\<bar>r\<bar> * 100);
              ip = digits_of (c div 100)
          in (if r < 0 then ''-'' else '''') @ (if comma then group3 ip else ip)
             @ ''.'' @ [digit_char (c mod 100 div 10), digit_char (c mod 10)]))"

text \<open>The format \<^verbatim>\<open><n\<close>: left-justified in a field of width \<open>n\<close>.\<close>

definition ljust :: "nat \<Rightarrow> string \<Rightarrow> string" where
  "ljust n s = s @ replicate (n - length s) CHR '' ''"

text \<open>\<^verbatim>\<open>', '.join(xs)\<close>\<close>

fun join_comma :: "string list \<Rightarrow> string" where
  "join_comma [] = []"
| "join_comma [x] = x"
| "join_comma (x # xs) = x @ '', '' @ join_comma xs"

section \<open>The program\<close>

subsection \<open>The price table\<close>

text \<open>
  The decimal literals of the dictionary display, in its order. A float literal
  denotes the binary64 value nearest to the decimal written.
\<close>

definition PRICE_LITERALS :: "(string \<times> rat) list" where
  "PRICE_LITERALS =
     [(''NVDA'', 87550 / 100),
      (''JNJ'', 15830 / 100),
      (''V'', 27015 / 100),
      (''COST'', 78000 / 100),
      (''ASML'', 99588 / 100),
      (''RY'', 10545 / 100)]"

definition STOCK_PRICES :: "(string \<times> pyfloat) list" where
  "STOCK_PRICES = map (\<lambda>(t, d). (t, round_double d)) PRICE_LITERALS"

subsection \<open>Holdings and the console\<close>

record holding =
  ticker :: string
  quantity :: int
  price :: pyfloat
  value_usd :: pyfloat
  weight :: pyfloat

text \<open>
  What the process writes to the console: a \<^verbatim>\<open>print\<close> call, or the prompt of an
  \<^verbatim>\<open>input\<close> call.
\<close>

datatype out = Print string | Prompt string

text \<open>
  The world of one run: the lines the user will type, what was written so far,
  the files, the fault the operating system will raise during a save, if any
  (\<open>Some (k, msg)\<close> fails the \<open>k\<close>-th file operation, where 0 is \<^verbatim>\<open>open\<close>, then
  come the writes in order, then the close, with \<^verbatim>\<open>OSError(msg)\<close>), and the
  interpreter.
\<close>

record world =
  stdin :: "string list"
  stdout :: "out list"
  files :: "string \<Rightarrow> string option"
  io_fault :: "(nat \<times> string) option"
  interpreter :: cpython

definition print_py :: "string \<Rightarrow> world \<Rightarrow> world" where
  "print_py s w = w\<lparr>stdout := stdout w @ [Print s]\<rparr>"

text \<open>\<^verbatim>\<open>input(prompt)\<close>: raises \<^verbatim>\<open>EOFError\<close> at the end of the input.\<close>

definition input_py :: "string \<Rightarrow> world \<Rightarrow> py_error + (string \<times> world)" where
  "input_py prompt w = (case stdin w of
       [] \<Rightarrow> Inl EOFError
     | l # ls \<Rightarrow> Inr (l, w\<lparr>stdin := ls, stdout := stdout w @ [Prompt prompt]\<rparr>))"

text \<open>
  A fresh run on a current interpreter: the lines to be typed, nothing written,
  no file, no fault.
\<close>

definition console :: "string list \<Rightarrow> world" where
  "console ls = \<lparr>stdin = ls, stdout = [], files = (\<lambda>_. None), io_fault = None,
     interpreter = Since_3_12\<rparr>"

text \<open>Every line still to be typed is ASCII.\<close>

definition ascii_input :: "world \<Rightarrow> bool" where
  "ascii_input w = list_all ascii_line (stdin w)"

subsection \<open>\<^verbatim>\<open>get_user_portfolio\<close>\<close>

text \<open>
  The inner loop \<^verbatim>\<open>while True: try: ... except ValueError: ...\<close>. Only the
  \<^verbatim>\<open>ValueError\<close> of \<^verbatim>\<open>int()\<close> is caught; the \<^verbatim>\<open>EOFError\<close> of \<^verbatim>\<open>input\<close>
  leaves the function.
\<close>

function quantity_loop :: "string \<Rightarrow> world \<Rightarrow> py_error + (int \<times> world)" where
  "quantity_loop tk w =
     (case input_py (''Enter quantity for '' @ tk @ '': '') w of
        Inl e \<Rightarrow> Inl e
      | Inr (line, w1) \<Rightarrow>
          (let quantity_input = strip line in
           if quantity_input = [] then
             quantity_loop tk (print_py ''Quantity cannot be empty.'' w1)
           else
             (case py_int quantity_input of
                None \<Rightarrow>
                  quantity_loop tk
                    (print_py ''Invalid input. Please enter a whole number for quantity.'' w1)
              | Some qty \<Rightarrow>
                  if qty \<le> 0 then
                    quantity_loop tk (print_py ''Quantity must be a positive whole number.'' w1)
                  else Inr (qty, w1))))"
  by pat_completeness auto
termination
  by (relation "measure (\<lambda>(tk, w). length (stdin w))")
    (auto simp: input_py_def print_py_def split: list.splits)

declare quantity_loop.simps [simp del]

lemma input_py_shorter:
  "input_py p w = Inr (l, w') \<Longrightarrow> length (stdin w') < length (stdin w)"
  by (auto simp: input_py_def split: list.splits)

lemma quantity_loop_stdin:
  "quantity_loop tk w = Inr (q, w') \<Longrightarrow> length (stdin w') \<le> length (stdin w)"
proof (induction tk w rule: quantity_loop.induct)
  case (1 tk w)
  from "1.prems" obtain l w1 where inp: "input_py (''Enter quantity for '' @ tk @ '': '') w = Inr (l, w1)"
    by (subst (asm) quantity_loop.simps) (auto split: sum.splits)
  have le1: "length (stdin w1) \<le> length (stdin w)"
    using input_py_shorter [OF inp] by simp
  show ?case
  proof (cases "strip l = []")
    case True
    with "1.prems" inp
    have "quantity_loop tk (print_py ''Quantity cannot be empty.'' w1) = Inr (q, w')"
      by (subst (asm) quantity_loop.simps) simp
    from "1.IH"(1) [OF inp refl refl True this] le1
    show ?thesis by (simp add: print_py_def)
  next
    case False
    show ?thesis
    proof (cases "py_int (strip l)")
      case None
      with "1.prems" inp False
      have "quantity_loop tk
          (print_py ''Invalid input. Please enter a whole number for quantity.'' w1) = Inr (q, w')"
        by (subst (asm) quantity_loop.simps) simp
      from "1.IH"(2) [OF inp refl refl False None this] le1
      show ?thesis by (simp add: print_py_def)
    next
      case (Some n)
      show ?thesis
      proof (cases "n \<le> 0")
        case True
        with "1.prems" inp False Some
        have "quantity_loop tk
            (print_py ''Quantity must be a positive whole number.'' w1) = Inr (q, w')"
          by (subst (asm) quantity_loop.simps) simp
        from "1.IH"(3) [OF inp refl refl False Some True this] le1
        show ?thesis by (simp add: print_py_def)
      next
        case nonpos: False
        with "1.prems" inp False Some have "w' = w1"
          by (subst (asm) quantity_loop.simps) simp
        with le1 show ?thesis by simp
      qed
    qed
  qed
qed

text \<open>
  The outer loop \<^verbatim>\<open>while True\<close> with the list built so far. The multiplication
  \<^verbatim>\<open>quantity * price\<close> stands outside every \<^verbatim>\<open>try\<close>: its \<^verbatim>\<open>OverflowError\<close>
  leaves the function.
\<close>

function ticker_loop :: "holding list \<Rightarrow> world \<Rightarrow> py_error + (holding list \<times> world)" where
  "ticker_loop portfolio w =
     (case input_py ''Enter stock ticker (e.g., NVDA): '' w of
        Inl e \<Rightarrow> Inl e
      | Inr (line, w1) \<Rightarrow>
          (let tk = upper (strip line) in
           if tk = ''DONE'' then Inr (portfolio, w1)
           else
             (case map_of STOCK_PRICES tk of
                None \<Rightarrow>
                  ticker_loop portfolio
                    (print_py (''Error: Stock '' @ [CHR 0x27] @ tk @ [CHR 0x27]
                       @ '' not found in the price list. Please try one of the available options.'') w1)
              | Some pr \<Rightarrow>
                  (case quantity_loop tk w1 of
                     Inl e \<Rightarrow> Inl e
                   | Inr (qty, w2) \<Rightarrow>
                       (case int_times_float qty pr of
                          Inl e \<Rightarrow> Inl e
                        | Inr v \<Rightarrow>
                            ticker_loop
                              (portfolio @ [\<lparr>ticker = tk, quantity = qty, price = pr,
                                 value_usd = v, weight = Finite 0\<rparr>])
                              (print_py (''-> Added '' @ str_int qty @ '' shares of '' @ tk
                                 @ '' at $'' @ format_2f False pr @ '' each. Current value: $''
                                 @ format_2f True v) w2))))))"
  by pat_completeness auto
termination
proof (relation "measure (\<lambda>(portfolio, w). length (stdin w))", goal_cases)
  case 1
  show ?case by simp
next
  case (2 portfolio w b x y xa)
  then have "length (stdin y) < length (stdin w)"
    using input_py_shorter [of _ w x y] by simp
  then show ?case by (simp add: print_py_def)
next
  case (3 portfolio w b x y xa x2 ba xb ya bb)
  then have "length (stdin y) < length (stdin w)"
    using input_py_shorter [of _ w x y] by simp
  moreover from 3 have "length (stdin ya) \<le> length (stdin y)"
    using quantity_loop_stdin [of xa y xb ya] by simp
  ultimately show ?case by (simp add: print_py_def)
qed

declare ticker_loop.simps [simp del]

definition get_user_portfolio :: "world \<Rightarrow> py_error + (holding list \<times> world)" where
  "get_user_portfolio w =
     ticker_loop []
       (print_py ''Type 'done' when you have finished entering your stocks.''
         (print_py (''Available stocks: '' @ join_comma (map fst STOCK_PRICES))
           (print_py ([CHR 0x0A] @ ''--- Enter Your Stock Holdings ---'') w)))"


subsection \<open>\<^verbatim>\<open>calculate_portfolio_value\<close>\<close>

text \<open>
  \<^verbatim>\<open>sum(holding['value'] for holding in portfolio)\<close>. The builtin starts from
  the integer \<^verbatim>\<open>0\<close> and adds the first item with Python's \<^verbatim>\<open>+\<close>; the result is
  a float, and the remaining floats are added in a C loop. Before CPython 3.12
  that loop is \<^verbatim>\<open>f_result += x\<close>:
\<close>

fun sum_py :: "pyfloat \<Rightarrow> pyfloat list \<Rightarrow> pyfloat" where
  "sum_py acc [] = acc"
| "sum_py acc (x # xs) = sum_py (fadd acc x) xs"

text \<open>
  Since CPython 3.12 the loop keeps a compensation \<^verbatim>\<open>c\<close> (Neumaier):
  \<^verbatim>\<open>t = f_result + x\<close>, then \<^verbatim>\<open>c += (f_result - t) + x\<close> when
  \<^verbatim>\<open>fabs(f_result) >= fabs(x)\<close> and \<^verbatim>\<open>c += (x - t) + f_result\<close> otherwise, then
  \<^verbatim>\<open>f_result = t\<close>; at the end \<^verbatim>\<open>c\<close> is added when it is finite and not zero.
\<close>

fun neumaier :: "pyfloat \<Rightarrow> pyfloat \<Rightarrow> pyfloat list \<Rightarrow> pyfloat" where
  "neumaier f c [] = (if \<not> is_zero c \<and> is_finite c then fadd f c else f)"
| "neumaier f c (x # xs) =
     (let t = fadd f x
      in neumaier t
           (fadd c (if fabs_ge f x then fadd (fsub f t) x else fadd (fsub x t) f)) xs)"

definition sum_builtin :: "cpython \<Rightarrow> pyfloat list \<Rightarrow> pyfloat" where
  "sum_builtin v xs = (case xs of
       [] \<Rightarrow> Finite 0
     | x # rest \<Rightarrow>
         (case v of
            Before_3_12 \<Rightarrow> sum_py (fadd (Finite 0) x) rest
          | Since_3_12 \<Rightarrow> neumaier (fadd (Finite 0) x) (Finite 0) rest))"

definition calculate_portfolio_value :: "cpython \<Rightarrow> holding list \<Rightarrow> pyfloat" where
  "calculate_portfolio_value v portfolio = sum_builtin v (map value_usd portfolio)"

subsection \<open>\<^verbatim>\<open>calculate_portfolio_weights\<close>\<close>

text \<open>
  The loop \<^verbatim>\<open>for holding in portfolio\<close>; the list returned is the list after the
  in-place updates. The factor \<^verbatim>\<open>100\<close> is an integer that converts exactly.
\<close>

fun weights_loop :: "holding list \<Rightarrow> pyfloat \<Rightarrow> py_error + holding list" where
  "weights_loop [] total_value = Inr []"
| "weights_loop (h # hs) total_value =
     (case fdiv (value_usd h) total_value of
        Inl e \<Rightarrow> Inl e
      | Inr q \<Rightarrow>
          (case weights_loop hs total_value of
             Inl e \<Rightarrow> Inl e
           | Inr hs' \<Rightarrow> Inr (h\<lparr>weight := fmul q (Finite 100)\<rparr> # hs')))"

definition calculate_portfolio_weights :: "holding list \<Rightarrow> pyfloat \<Rightarrow> py_error + holding list" where
  "calculate_portfolio_weights portfolio total_value =
     (if is_zero total_value then Inr portfolio else weights_loop portfolio total_value)"

subsection \<open>The report and \<^verbatim>\<open>save_results_to_file\<close>\<close>

definition rule_line :: "char \<Rightarrow> string" where
  "rule_line c = replicate 65 c"

definition header_row :: string where
  "header_row = ljust 10 ''Ticker'' @ ljust 10 ''Quantity'' @ ljust 10 ''Price''
     @ ljust 15 ''Value (USD)'' @ ljust 15 ''Weight (%)''"

definition holding_row :: "holding \<Rightarrow> string" where
  "holding_row h = ljust 10 (ticker h) @ ljust 10 (str_int (quantity h))
     @ ljust 10 (format_2f False (price h)) @ ljust 15 (format_2f False (value_usd h))
     @ ljust 15 (format_2f False (weight h))"

definition nl :: string where
  "nl = [CHR 0x0A]"

text \<open>The strings handed to \<^verbatim>\<open>f.write\<close>, in order.\<close>

definition file_chunks :: "holding list \<Rightarrow> pyfloat \<Rightarrow> string list" where
  "file_chunks portfolio total_value =
     [rule_line CHR ''='' @ nl,
      ''     STOCK PORTFOLIO SUMMARY'' @ nl,
      rule_line CHR ''='' @ nl,
      header_row @ nl,
      rule_line CHR ''-'' @ nl]
     @ map (\<lambda>h. holding_row h @ nl) portfolio
     @ [rule_line CHR ''-'' @ nl,
        ''Total Investment Value: $'' @ format_2f True total_value @ nl,
        rule_line CHR ''='' @ nl]"

text \<open>
  The body of the \<^verbatim>\<open>with open(filename, 'w')\<close> block. A fault at operation 0
  leaves the files as they were; a later one leaves what was written before it
  (the file was truncated when it was opened).
\<close>

definition write_file :: "string \<Rightarrow> string list \<Rightarrow> world \<Rightarrow> (py_error \<times> world) + world" where
  "write_file filename chunks w =
     (case io_fault w of
        None \<Rightarrow> Inr (w\<lparr>files := (files w)(filename \<mapsto> concat chunks)\<rparr>)
      | Some (k, msg) \<Rightarrow>
          if k = 0 then Inl (OSError msg, w)
          else if k \<le> length chunks + 1 then
            Inl (OSError msg, w\<lparr>files := (files w)(filename \<mapsto> concat (take (k - 1) chunks))\<rparr>)
          else Inr (w\<lparr>files := (files w)(filename \<mapsto> concat chunks)\<rparr>))"

text \<open>\<^verbatim>\<open>try: ... except IOError as e: ...\<close>; \<^verbatim>\<open>IOError\<close> is \<^verbatim>\<open>OSError\<close>.\<close>

definition save_results_to_file :: "holding list \<Rightarrow> pyfloat \<Rightarrow> string \<Rightarrow> world \<Rightarrow> py_error + world" where
  "save_results_to_file portfolio total_value filename w =
     (case write_file filename (file_chunks portfolio total_value) w of
        Inr w' \<Rightarrow> Inr (print_py (nl @ ''[SUCCESS] Report successfully saved to '' @ filename) w')
      | Inl (OSError msg, w') \<Rightarrow>
          Inr (print_py (nl @ ''[ERROR] An error occurred while saving the file: '' @ msg) w')
      | Inl (e, w') \<Rightarrow> Inl e)"

subsection \<open>\<^verbatim>\<open>main\<close>\<close>

text \<open>
  How a run ends: \<^verbatim>\<open>main\<close> returns, \<^verbatim>\<open>sys.exit()\<close> ends the process with a
  status (0 when called without argument), or an exception that nothing catches
  ends it with a traceback.
\<close>

datatype outcome = Returned world | Exited int world | Raised py_error

definition print_report :: "holding list \<Rightarrow> pyfloat \<Rightarrow> world \<Rightarrow> world" where
  "print_report portfolio total_value w =
     print_py (rule_line CHR ''='')
       (print_py (''Total Portfolio Value: $'' @ format_2f True total_value)
         (print_py (rule_line CHR ''-'')
           (foldl (\<lambda>w' h. print_py (holding_row h) w')
             (print_py (rule_line CHR ''-'')
               (print_py header_row
                 (print_py (rule_line CHR ''='')
                   (print_py ''     FINAL PORTFOLIO REPORT    ''
                     (print_py (nl @ rule_line CHR ''='') w)))))
             portfolio)))"

definition main :: "world \<Rightarrow> outcome" where
  "main w =
     (case get_user_portfolio (print_py ''<<< Welcome to the Simple Stock Portfolio Tracker >>>'' w) of
        Inl e \<Rightarrow> Raised e
      | Inr (user_portfolio, w1) \<Rightarrow>
          if user_portfolio = [] then
            Exited 0 (print_py (nl @ ''No stocks were entered. Application closing.'') w1)
          else
            (let total_value = calculate_portfolio_value (interpreter w) user_portfolio in
             case calculate_portfolio_weights user_portfolio total_value of
               Inl e \<Rightarrow> Raised e
             | Inr weighted \<Rightarrow>
                 (case input_py (nl @ ''Do you want to save this report to a file (portfolio_summary.txt)? (y/n): '')
                         (print_report weighted total_value w1) of
                    Inl e \<Rightarrow> Raised e
                  | Inr (answer, w2) \<Rightarrow>
                      if lower (strip answer) = ''y'' then
                        (case save_results_to_file weighted total_value ''portfolio_summary.txt'' w2 of
                           Inl e \<Rightarrow> Raised e
                         | Inr w3 \<Rightarrow> Returned w3)
                      else Returned (print_py ''File saving skipped.'' w2))))"

text \<open>What a run wrote to the console, however it ended.\<close>

fun transcript :: "outcome \<Rightarrow> out list" where
  "transcript (Returned w) = stdout w"
| "transcript (Exited n w) = stdout w"
| "transcript (Raised e) = []"

section \<open>Properties of the rounding\<close>

lemma pow2_code [code]:
  "pow2 k = (if k < 0 then 1 / pow2 (- k)
             else if k = 0 then 1
             else if even k then (let h = pow2 (k div 2) in h * h)
             else 2 * pow2 (k - 1))"
proof -
  have neg: "pow2 (- k) = 1 / pow2 k" for k
    by (simp add: pow2_def power_int_minus_divide)
  have add: "pow2 (a + b) = pow2 a * pow2 b" for a b
    by (simp add: pow2_def power_int_add)
  have "pow2 k = pow2 (k div 2) * pow2 (k div 2)" if "even k"
    using that add [of "k div 2" "k div 2"] by (auto elim!: evenE)
  moreover have "pow2 k = 2 * pow2 (k - 1)"
    using add [of 1 "k - 1"] by (simp add: pow2_def)
  moreover have "pow2 k = 1 / pow2 (- k)"
    using neg [of "- k"] by simp
  ultimately show ?thesis by (simp add: Let_def pow2_def)
qed

lemma bit_length_pos: "0 < n \<Longrightarrow> 1 \<le> bit_length n \<and> 2 ^ nat (bit_length n - 1) \<le> n \<and> n < 2 ^ nat (bit_length n)"
proof (induction n rule: bit_length.induct)
  case (1 n)
  show ?case
  proof (cases "n div 2 = 0")
    case True
    with "1.prems" have n1: "n = 1" by presburger
    have "bit_length 1 = 1"
      by (simp add: bit_length.simps [of 1] bit_length.simps [of 0])
    with n1 show ?thesis by simp
  next
    case False
    with "1.prems" have m: "0 < n div 2" by presburger
    from "1.prems" have nle: "\<not> n \<le> 0" by simp
    from "1.IH" [OF nle m]
    have b1: "1 \<le> bit_length (n div 2)"
      and lo: "2 ^ nat (bit_length (n div 2) - 1) \<le> n div 2"
      and hi: "n div 2 < 2 ^ nat (bit_length (n div 2))" by simp_all
    have bl: "bit_length n = 1 + bit_length (n div 2)"
      using nle by (subst bit_length.simps) simp
    have e1: "nat (bit_length n - 1) = Suc (nat (bit_length (n div 2) - 1))"
      using b1 bl by simp
    have e2: "nat (bit_length n) = Suc (nat (bit_length (n div 2)))"
      using b1 bl by simp
    have "2 * 2 ^ nat (bit_length (n div 2) - 1) \<le> n"
      using lo by presburger
    moreover have "n < 2 * 2 ^ nat (bit_length (n div 2))"
      using hi by presburger
    ultimately show ?thesis using b1 bl e1 e2 by simp
  qed
qed

lemma pow2_pos [simp]: "0 < pow2 k"
  by (simp add: pow2_def)

lemma pow2_add: "pow2 (a + b) = pow2 a * pow2 b"
  by (simp add: pow2_def power_int_add)

lemma pow2_nat: "0 \<le> k \<Longrightarrow> pow2 k = of_int (2 ^ nat k)"
  by (simp add: pow2_def power_int_def)

lemma pow2_neg: "pow2 (- k) = 1 / pow2 k"
  by (simp add: pow2_def power_int_minus_divide)

lemma pow2_mono: "a \<le> b \<Longrightarrow> pow2 a \<le> pow2 b"
  by (simp add: pow2_def power_int_increasing)

lemma pow2_less_iff: "pow2 a < pow2 b \<longleftrightarrow> a < b"
proof
  assume "pow2 a < pow2 b"
  then show "a < b" using pow2_mono [of b a] by (cases "a < b") simp_all
next
  assume "a < b"
  then show "pow2 a < pow2 b" by (simp add: pow2_def power_int_strict_increasing)
qed

lemma ilog2_bounds:
  assumes "0 < x"
  shows "pow2 (ilog2 x) \<le> x \<and> x < pow2 (ilog2 x + 1)"
proof (cases "1 \<le> x")
  case True
  define f where "f = \<lfloor>x\<rfloor>"
  have f1: "1 \<le> f" using True by (simp add: f_def le_floor_iff)
  from bit_length_pos [of f] f1
  have b1: "1 \<le> bit_length f" and lo: "2 ^ nat (bit_length f - 1) \<le> f"
    and hi: "f < 2 ^ nat (bit_length f)" by simp_all
  have il: "ilog2 x = bit_length f - 1" using True by (simp add: ilog2_def f_def)
  have "pow2 (bit_length f - 1) = of_int (2 ^ nat (bit_length f - 1))"
    using b1 by (intro pow2_nat) simp
  also have "\<dots> \<le> of_int f" using lo by (simp only: of_int_le_iff)
  also have "\<dots> \<le> x" by (simp add: f_def)
  finally have A: "pow2 (ilog2 x) \<le> x" by (simp add: il)
  have "x < of_int (f + 1)" using floor_correct [of x] by (simp add: f_def)
  also have "\<dots> \<le> of_int (2 ^ nat (bit_length f))"
  proof -
    from hi have "f + 1 \<le> 2 ^ nat (bit_length f)" by simp
    then show ?thesis by (simp only: of_int_le_iff)
  qed
  also have "\<dots> = pow2 (bit_length f)" using b1 by (subst pow2_nat) simp_all
  finally have B: "x < pow2 (ilog2 x + 1)" by (simp add: il)
  from A B show ?thesis ..
next
  case False
  then have x1: "x < 1" by simp
  define m where "m = \<lceil>1 / x\<rceil>"
  have y1: "1 < 1 / x" using assms x1 by simp
  then have m2: "2 \<le> m" unfolding m_def by (simp add: le_ceiling_iff)
  from bit_length_pos [of "m - 1"] m2
  have b1: "1 \<le> bit_length (m - 1)" and lo: "2 ^ nat (bit_length (m - 1) - 1) \<le> m - 1"
    and hi: "m - 1 < 2 ^ nat (bit_length (m - 1))" by simp_all
  define k where "k = bit_length (m - 1)"
  have il: "ilog2 x = - k" using False by (simp add: ilog2_def m_def k_def)
  have "1 / x \<le> of_int m" by (simp add: m_def)
  also have "\<dots> \<le> of_int (2 ^ nat k)"
  proof -
    from hi have "m \<le> 2 ^ nat k" unfolding k_def by simp
    then show ?thesis by (simp only: of_int_le_iff)
  qed
  also have "\<dots> = pow2 k" using b1 unfolding k_def by (subst pow2_nat) simp_all
  finally have "1 / x \<le> pow2 k" .
  then have "1 / pow2 k \<le> x" using assms
    by (simp add: field_simps)
  then have A: "pow2 (ilog2 x) \<le> x" by (simp add: il pow2_neg)
  have "pow2 (k - 1) = of_int (2 ^ nat (k - 1))" using b1 unfolding k_def by (intro pow2_nat) simp
  also have "\<dots> \<le> of_int (m - 1)" using lo unfolding k_def by (simp only: of_int_le_iff)
  also have "\<dots> < 1 / x" unfolding m_def using ceiling_correct [of "1 / x"] by simp
  finally have "pow2 (k - 1) < 1 / x" .
  then have "x < 1 / pow2 (k - 1)" using assms by (simp add: field_simps)
  then have B: "x < pow2 (ilog2 x + 1)" using pow2_neg [of "k - 1"] by (simp add: il)
  from A B show ?thesis ..
qed

lemma pow2_le_iff: "pow2 a \<le> pow2 b \<longleftrightarrow> a \<le> b"
  using pow2_less_iff [of b a] by (auto simp: not_less [symmetric])

lemma pow2_0 [simp]: "pow2 0 = 1"
  by (simp add: pow2_def)

lemma pow2_nz [simp]: "pow2 k \<noteq> 0"
  by (simp add: pow2_def)

lemma pow2_nonneg [simp]: "0 \<le> pow2 k"
  using pow2_pos [of k] by (simp only: less_imp_le)

lemma rne_floor: "\<lfloor>y\<rfloor> \<le> rne y \<and> rne y \<le> \<lfloor>y\<rfloor> + 1"
  by (simp add: rne_def Let_def)

lemma rne_error: "\<bar>of_int (rne y) - y\<bar> \<le> 1 / 2"
proof -
  define f where "f = \<lfloor>y\<rfloor>"
  define d where "d = y - of_int f"
  have d: "0 \<le> d" "d < 1"
    using floor_correct [of y] by (simp_all add: d_def f_def)
  have r: "rne y = (if d < 1/2 then f else if 1/2 < d then f + 1 else if even f then f else f + 1)"
    by (simp add: rne_def Let_def f_def d_def)
  have "of_int (rne y) - y = of_int (rne y) - of_int f - d"
    by (simp add: d_def)
  also have "\<bar>\<dots>\<bar> \<le> 1 / 2"
    using d by (auto simp: r abs_if)
  finally show ?thesis .
qed

lemma rne_of_int [simp]: "rne (of_int k) = k"
  by (simp add: rne_def)

lemma rne_ge: "of_int k \<le> y \<Longrightarrow> k \<le> rne y"
proof -
  assume "of_int k \<le> y"
  then have "k \<le> \<lfloor>y\<rfloor>" by (simp add: le_floor_iff)
  with rne_floor [of y] show ?thesis by linarith
qed

lemma rne_le: "y \<le> of_int k \<Longrightarrow> rne y \<le> k"
proof (cases "y = of_int k")
  case True
  then show ?thesis by simp
next
  case False
  assume "y \<le> of_int k"
  with False have "y < of_int k" by simp
  then have "\<lfloor>y\<rfloor> < k" by (simp add: floor_less_iff)
  with rne_floor [of y] show ?thesis by simp
qed

lemma quantum_pos [simp]: "0 < quantum a"
  by (simp add: quantum_def)

lemma quantum_nz [simp]: "quantum a \<noteq> 0"
  by (simp add: quantum_def)

lemma ilog2_ge: "pow2 k \<le> x \<Longrightarrow> k \<le> ilog2 x"
proof -
  assume a: "pow2 k \<le> x"
  have "0 < x" using a pow2_pos [of k] by linarith
  from ilog2_bounds [OF this] a have "pow2 k < pow2 (ilog2 x + 1)" by linarith
  then show ?thesis by (simp add: pow2_less_iff)
qed

lemma ilog2_less: "0 < x \<Longrightarrow> x < pow2 k \<Longrightarrow> ilog2 x < k"
proof -
  assume "0 < x" "x < pow2 k"
  with ilog2_bounds [of x] have "pow2 (ilog2 x) < pow2 k" by linarith
  then show ?thesis by (simp add: pow2_less_iff)
qed

lemma ilog2_le: "0 < x \<Longrightarrow> x \<le> pow2 k \<Longrightarrow> ilog2 x \<le> k"
proof -
  assume "0 < x" "x \<le> pow2 k"
  with ilog2_bounds [of x] have "pow2 (ilog2 x) \<le> pow2 k" by linarith
  then show ?thesis by (simp add: pow2_le_iff)
qed

lemma nearest_err: "\<bar>nearest a - a\<bar> \<le> quantum a / 2"
proof -
  define q where "q = quantum a"
  have q: "0 < q" by (simp add: q_def)
  have "nearest a - a = (of_int (rne (a / q)) - a / q) * q"
    using q by (simp add: nearest_def q_def field_simps)
  then have "\<bar>nearest a - a\<bar> = \<bar>of_int (rne (a / q)) - a / q\<bar> * q"
    using q by (simp add: abs_mult)
  also have "\<dots> \<le> (1 / 2) * q"
    using rne_error [of "a / q"] q by (intro mult_right_mono) simp_all
  finally show ?thesis by (simp add: q_def)
qed

lemma quantum_normal: "pow2 (- 1022) \<le> a \<Longrightarrow> quantum a \<le> a * pow2 (- 52)"
proof -
  assume a: "pow2 (- 1022) \<le> a"
  have pos: "0 < a" using a pow2_pos [of "- 1022"] by linarith
  from ilog2_ge [OF a] have "max (ilog2 a) (- 1022) = ilog2 a" by simp
  then have "quantum a = pow2 (ilog2 a + (- 52))" by (simp add: quantum_def)
  also have "\<dots> = pow2 (ilog2 a) * pow2 (- 52)" by (rule pow2_add)
  also have "\<dots> \<le> a * pow2 (- 52)"
    using ilog2_bounds [OF pos] by (intro mult_right_mono) simp_all
  finally show ?thesis .
qed

lemma quantum_le: "0 < a \<Longrightarrow> a < pow2 k \<Longrightarrow> - 1021 \<le> k \<Longrightarrow> quantum a \<le> pow2 (k - 53)"
proof -
  assume "0 < a" "a < pow2 k" "- 1021 \<le> k"
  then have "max (ilog2 a) (- 1022) - 52 \<le> k - 53"
    using ilog2_less [of a k] by simp
  then show ?thesis unfolding quantum_def by (rule pow2_mono)
qed

lemma nearest_ge_pow2:
  assumes "pow2 k \<le> a" "- 1022 \<le> k"
  shows "pow2 k \<le> nearest a"
proof -
  define e where "e = ilog2 a"
  have pos: "0 < a" using assms(1) pow2_pos [of k] by linarith
  have ke: "k \<le> e" unfolding e_def using assms(1) by (rule ilog2_ge)
  then have q: "quantum a = pow2 (e - 52)" using assms(2) by (simp add: quantum_def e_def)
  have "pow2 e = pow2 52 * pow2 (e - 52)" using pow2_add [of 52 "e - 52"] by simp
  then have "pow2 52 = pow2 e / pow2 (e - 52)" by (simp add: field_simps)
  also have "\<dots> \<le> a / pow2 (e - 52)"
    using ilog2_bounds [OF pos] by (intro divide_right_mono) (simp_all add: e_def)
  finally have "of_int (2 ^ 52) \<le> a / quantum a" by (simp add: q pow2_nat)
  then have "2 ^ 52 \<le> rne (a / quantum a)" by (rule rne_ge)
  then have "(of_int (2 ^ 52) :: rat) \<le> of_int (rne (a / quantum a))"
    by (simp only: of_int_le_iff)
  then have "of_int (2 ^ 52) * pow2 (e - 52) \<le> nearest a"
    unfolding nearest_def q by (intro mult_right_mono) simp_all
  also have "of_int (2 ^ 52) * pow2 (e - 52) = pow2 52 * pow2 (e - 52)" by (simp add: pow2_nat)
  also have "\<dots> = pow2 e" using pow2_add [of 52 "e - 52"] by simp
  finally have "pow2 e \<le> nearest a" .
  with pow2_mono [OF ke] show ?thesis by linarith
qed

lemma nearest_le_pow2:
  assumes "0 < a" "a \<le> pow2 k" "- 1022 \<le> k"
  shows "nearest a \<le> pow2 k"
proof -
  define e where "e = max (ilog2 a) (- 1022)"
  have ek: "e \<le> k" unfolding e_def using ilog2_le [OF assms(1,2)] assms(3) by simp
  have q: "quantum a = pow2 (e - 52)" by (simp add: quantum_def e_def)
  define j where "j = k - e + 52"
  have j0: "0 \<le> j" using ek by (simp add: j_def)
  have "pow2 k = pow2 j * pow2 (e - 52)" using pow2_add [of j "e - 52"] by (simp add: j_def)
  then have pj: "pow2 j = pow2 k / pow2 (e - 52)" by (simp add: field_simps)
  have "a / quantum a \<le> pow2 k / pow2 (e - 52)"
    unfolding q using assms(2) by (intro divide_right_mono) simp_all
  then have "a / quantum a \<le> of_int (2 ^ nat j)" using pj pow2_nat [OF j0] by simp
  then have "rne (a / quantum a) \<le> 2 ^ nat j" by (rule rne_le)
  then have "(of_int (rne (a / quantum a)) :: rat) \<le> of_int (2 ^ nat j)"
    by (simp only: of_int_le_iff)
  then have "nearest a \<le> of_int (2 ^ nat j) * pow2 (e - 52)"
    unfolding nearest_def q by (intro mult_right_mono) simp_all
  also have "\<dots> = pow2 j * pow2 (e - 52)" using pow2_nat [OF j0] by simp
  also have "\<dots> = pow2 k" using pow2_add [of j "e - 52"] by (simp add: j_def)
  finally show ?thesis .
qed

lemma nearest_of_int:
  assumes "0 < n" "n < 2 ^ 53"
  shows "nearest (of_int n) = of_int n"
proof -
  define a :: rat where "a = of_int n"
  define e where "e = ilog2 a"
  have a1: "pow2 0 \<le> a" using assms(1) by (simp add: a_def)
  have pos: "0 < a" using assms(1) by (simp add: a_def)
  have e0: "0 \<le> e" unfolding e_def using a1 by (rule ilog2_ge)
  have "a < of_int (2 ^ 53)" unfolding a_def using assms(2) by (simp only: of_int_less_iff)
  then have "a < pow2 53" by (simp add: pow2_nat)
  then have e53: "e < 53" unfolding e_def using pos by (intro ilog2_less)
  have q: "quantum a = pow2 (e - 52)" using e0 by (simp add: quantum_def e_def)
  define j where "j = 52 - e"
  have j0: "0 \<le> j" using e53 by (simp add: j_def)
  have "pow2 j * pow2 (e - 52) = 1" using pow2_add [of j "e - 52"] by (simp add: j_def)
  then have inv: "1 / pow2 (e - 52) = pow2 j" by (simp add: field_simps)
  have "a / quantum a = a * (1 / pow2 (e - 52))" by (simp add: q)
  also have "\<dots> = of_int (n * 2 ^ nat j)" by (simp add: inv pow2_nat [OF j0] a_def)
  finally have eq: "a / quantum a = of_int (n * 2 ^ nat j)" .
  have "rne (a / quantum a) = n * 2 ^ nat j" unfolding eq by (rule rne_of_int)
  then have "nearest a = of_int (n * 2 ^ nat j) * pow2 (e - 52)" by (simp add: nearest_def q)
  also have "\<dots> = a * (pow2 j * pow2 (e - 52))" by (simp add: pow2_nat [OF j0] a_def)
  also have "\<dots> = a" using pow2_add [of j "e - 52"] by (simp add: j_def)
  finally show ?thesis by (simp add: a_def)
qed

lemma round_double_pos:
  "0 < x \<Longrightarrow> round_double x = (if pow2 1024 \<le> nearest x then PInf else Finite (nearest x))"
  by (simp add: round_double_def Let_def)

lemma round_double_finite:
  assumes "0 < x" "x \<le> pow2 k" "- 1022 \<le> k" "k < 1024"
  shows "round_double x = Finite (nearest x)"
proof -
  have "nearest x \<le> pow2 k" using assms(1-3) by (rule nearest_le_pow2)
  also have "\<dots> < pow2 1024" using assms(4) by (simp add: pow2_less_iff)
  finally show ?thesis using assms(1) by (simp add: round_double_pos)
qed

section \<open>The weights\<close>

lemma fdiv_nonzero: "\<not> is_zero t \<Longrightarrow> \<exists>q. fdiv a t = Inr q"
  by (cases a; cases t) (simp_all add: is_zero_def)

lemma weights_loop_total:
  assumes "\<not> is_zero t"
  shows "\<exists>p'. weights_loop p t = Inr p'
     \<and> list_all2 (\<lambda>h h'. \<exists>q. fdiv (value_usd h) t = Inr q \<and> h' = h\<lparr>weight := fmul q (Finite 100)\<rparr>) p p'"
proof (induction p)
  case Nil
  show ?case by simp
next
  case (Cons h hs)
  from fdiv_nonzero [OF assms] obtain q where q: "fdiv (value_usd h) t = Inr q" by blast
  from Cons.IH obtain hs' where hs: "weights_loop hs t = Inr hs'"
    and rel: "list_all2 (\<lambda>h h'. \<exists>q. fdiv (value_usd h) t = Inr q \<and> h' = h\<lparr>weight := fmul q (Finite 100)\<rparr>) hs hs'"
    by blast
  show ?case using q hs rel by simp
qed

text \<open>
  Claim C3. When the total is exactly \<open>0\<close>, \<^verbatim>\<open>calculate_portfolio_weights\<close>
  changes nothing: every holding keeps the weight it had (the \<open>0\<close> it was created
  with). Otherwise it raises nothing and sets the weight of each holding to
  \<open>(value / total) * 100\<close>, leaving the other fields as they were.
\<close>

theorem calculate_portfolio_weights_guard:
  "(is_zero total_value \<longrightarrow> calculate_portfolio_weights p total_value = Inr p)
   \<and> (\<not> is_zero total_value \<longrightarrow>
        (\<exists>p'. calculate_portfolio_weights p total_value = Inr p'
          \<and> list_all2 (\<lambda>h h'. \<exists>q. fdiv (value_usd h) total_value = Inr q
                \<and> h' = h\<lparr>weight := fmul q (Finite 100)\<rparr>) p p'))"
  using weights_loop_total [of total_value p] by (simp add: calculate_portfolio_weights_def)

theorem calculate_portfolio_weights_guard_witness:
  "is_zero (Finite 0)
   \<and> calculate_portfolio_weights
       [\<lparr>ticker = ''V'', quantity = 1, price = Finite 2, value_usd = Finite 2, weight = Finite 0\<rparr>]
       (Finite 0)
     = Inr [\<lparr>ticker = ''V'', quantity = 1, price = Finite 2, value_usd = Finite 2, weight = Finite 0\<rparr>]
   \<and> \<not> is_zero (Finite 4)
   \<and> calculate_portfolio_weights
       [\<lparr>ticker = ''V'', quantity = 1, price = Finite 2, value_usd = Finite 2, weight = Finite 0\<rparr>]
       (Finite 4)
     = Inr [\<lparr>ticker = ''V'', quantity = 1, price = Finite 2, value_usd = Finite 2, weight = Finite 50\<rparr>]"
proof -
  define h where "h = \<lparr>ticker = ''V'', quantity = 1, price = Finite 2, value_usd = Finite 2, weight = Finite 0\<rparr>"
  have z: "is_zero (Finite 0)" by (simp add: is_zero_def)
  have nz: "\<not> is_zero (Finite 4)" by (simp add: is_zero_def)
  have q: "round_double (1 / 2) = Finite (1 / 2)" by code_simp
  have m: "round_double 50 = Finite 50" by code_simp
  from calculate_portfolio_weights_guard [of "Finite 0" "[h]"] z
  have a: "calculate_portfolio_weights [h] (Finite 0) = Inr [h]" by blast
  from calculate_portfolio_weights_guard [of "Finite 4" "[h]"] nz
  obtain p' where p': "calculate_portfolio_weights [h] (Finite 4) = Inr p'"
    and rel: "list_all2 (\<lambda>h h'. \<exists>q. fdiv (value_usd h) (Finite 4) = Inr q
                \<and> h' = h\<lparr>weight := fmul q (Finite 100)\<rparr>) [h] p'"
    by blast
  from rel have "p' = [h\<lparr>weight := Finite 50\<rparr>]"
    by (auto simp: list_all2_Cons1 h_def q m)
  with p' have b: "calculate_portfolio_weights [h] (Finite 4) = Inr [h\<lparr>weight := Finite 50\<rparr>]"
    by simp
  from z a nz b show ?thesis by (simp add: h_def)
qed

section \<open>The collector\<close>


lemma ticker_loop_result_induct [consumes 0, case_names eof sentinel unknown quantity_error overflow added]:
  assumes eof: "\<And>p w e. input_py ''Enter stock ticker (e.g., NVDA): '' w = Inl e \<Longrightarrow> P p w (Inl e)"
    and sentinel: "\<And>p w l w1. input_py ''Enter stock ticker (e.g., NVDA): '' w = Inr (l, w1)
        \<Longrightarrow> upper (strip l) = ''DONE'' \<Longrightarrow> P p w (Inr (p, w1))"
    and unknown: "\<And>p w l w1 w2. input_py ''Enter stock ticker (e.g., NVDA): '' w = Inr (l, w1)
        \<Longrightarrow> upper (strip l) \<noteq> ''DONE'' \<Longrightarrow> map_of STOCK_PRICES (upper (strip l)) = None
        \<Longrightarrow> w2 = print_py (''Error: Stock '' @ [CHR 0x27] @ upper (strip l) @ [CHR 0x27]
                 @ '' not found in the price list. Please try one of the available options.'') w1
        \<Longrightarrow> P p w2 (ticker_loop p w2) \<Longrightarrow> P p w (ticker_loop p w2)"
    and quantity_error: "\<And>p w l w1 pr e. input_py ''Enter stock ticker (e.g., NVDA): '' w = Inr (l, w1)
        \<Longrightarrow> upper (strip l) \<noteq> ''DONE'' \<Longrightarrow> map_of STOCK_PRICES (upper (strip l)) = Some pr
        \<Longrightarrow> quantity_loop (upper (strip l)) w1 = Inl e \<Longrightarrow> P p w (Inl e)"
    and overflow: "\<And>p w l w1 pr q w2 e. input_py ''Enter stock ticker (e.g., NVDA): '' w = Inr (l, w1)
        \<Longrightarrow> upper (strip l) \<noteq> ''DONE'' \<Longrightarrow> map_of STOCK_PRICES (upper (strip l)) = Some pr
        \<Longrightarrow> quantity_loop (upper (strip l)) w1 = Inr (q, w2)
        \<Longrightarrow> int_times_float q pr = Inl e \<Longrightarrow> P p w (Inl e)"
    and added: "\<And>p w l w1 pr q w2 v h w3. input_py ''Enter stock ticker (e.g., NVDA): '' w = Inr (l, w1)
        \<Longrightarrow> upper (strip l) \<noteq> ''DONE'' \<Longrightarrow> map_of STOCK_PRICES (upper (strip l)) = Some pr
        \<Longrightarrow> quantity_loop (upper (strip l)) w1 = Inr (q, w2)
        \<Longrightarrow> int_times_float q pr = Inr v
        \<Longrightarrow> h = \<lparr>ticker = upper (strip l), quantity = q, price = pr, value_usd = v, weight = Finite 0\<rparr>
        \<Longrightarrow> w3 = print_py (''-> Added '' @ str_int q @ '' shares of '' @ upper (strip l)
                 @ '' at $'' @ format_2f False pr @ '' each. Current value: $''
                 @ format_2f True v) w2
        \<Longrightarrow> P (p @ [h]) w3 (ticker_loop (p @ [h]) w3) \<Longrightarrow> P p w (ticker_loop (p @ [h]) w3)"
  shows "P p w (ticker_loop p w)"
proof (induction p w rule: ticker_loop.induct)
  case (1 p w)
  show ?case
  proof (cases "input_py ''Enter stock ticker (e.g., NVDA): '' w")
    case (Inl e)
    then have "ticker_loop p w = Inl e" by (subst ticker_loop.simps) simp
    with eof [OF Inl] show ?thesis by simp
  next
    case (Inr b)
    obtain l w1 where b: "b = (l, w1)" by (cases b)
    note inp = Inr [unfolded b]
    show ?thesis
    proof (cases "upper (strip l) = ''DONE''")
      case True
      with inp have "ticker_loop p w = Inr (p, w1)" by (subst ticker_loop.simps) simp
      with sentinel [OF inp True] show ?thesis by simp
    next
      case notdone: False
      show ?thesis
      proof (cases "map_of STOCK_PRICES (upper (strip l))")
        case None
        define w2 where "w2 = print_py (''Error: Stock '' @ [CHR 0x27] @ upper (strip l) @ [CHR 0x27]
                 @ '' not found in the price list. Please try one of the available options.'') w1"
        have eq: "ticker_loop p w = ticker_loop p w2"
          using inp notdone None by (subst ticker_loop.simps) (simp add: w2_def Let_def)
        have "P p w2 (ticker_loop p w2)"
          unfolding w2_def by (rule "1.IH"(1) [OF inp refl refl notdone None])
        from unknown [OF inp notdone None w2_def this] eq show ?thesis by simp
      next
        case (Some pr)
        show ?thesis
        proof (cases "quantity_loop (upper (strip l)) w1")
          case (Inl e)
          with inp notdone Some have "ticker_loop p w = Inl e"
            by (subst ticker_loop.simps) simp
          with quantity_error [OF inp notdone Some Inl] show ?thesis by simp
        next
          case (Inr c)
          obtain q w2 where c: "c = (q, w2)" by (cases c)
          note ql = Inr [unfolded c]
          show ?thesis
          proof (cases "int_times_float q pr")
            case (Inl e)
            with inp notdone Some ql have "ticker_loop p w = Inl e"
              by (subst ticker_loop.simps) simp
            with overflow [OF inp notdone Some ql Inl] show ?thesis by simp
          next
            case (Inr v)
            define h where "h = \<lparr>ticker = upper (strip l), quantity = q, price = pr,
              value_usd = v, weight = Finite 0\<rparr>"
            define w3 where "w3 = print_py (''-> Added '' @ str_int q @ '' shares of '' @ upper (strip l)
                 @ '' at $'' @ format_2f False pr @ '' each. Current value: $''
                 @ format_2f True v) w2"
            have eq: "ticker_loop p w = ticker_loop (p @ [h]) w3"
              using inp notdone Some ql Inr by (subst ticker_loop.simps) (simp add: h_def w3_def Let_def)
            have "P (p @ [h]) w3 (ticker_loop (p @ [h]) w3)"
              unfolding h_def w3_def
              by (rule "1.IH"(2) [OF inp refl refl notdone Some ql refl Inr])
            from added [OF inp notdone Some ql Inr h_def w3_def this] eq show ?thesis by simp
          qed
        qed
      qed
    qed
  qed
qed

lemma quantity_loop_errors: "quantity_loop tk w = Inl e \<Longrightarrow> e = EOFError"
proof (induction tk w rule: quantity_loop.induct)
  case (1 tk w)
  show ?case
  proof (cases "input_py (''Enter quantity for '' @ tk @ '': '') w")
    case (Inl e')
    then have "e' = EOFError" by (auto simp: input_py_def split: list.splits)
    moreover from Inl "1.prems" have "e = e'" by (subst (asm) quantity_loop.simps) simp
    ultimately show ?thesis by simp
  next
    case (Inr b)
    obtain l w1 where b: "b = (l, w1)" by (cases b)
    note inp = Inr [unfolded b]
    show ?thesis
    proof (cases "strip l = []")
      case True
      with "1.prems" inp
      have "quantity_loop tk (print_py ''Quantity cannot be empty.'' w1) = Inl e"
        by (subst (asm) quantity_loop.simps) simp
      from "1.IH"(1) [OF inp refl refl True this] show ?thesis .
    next
      case False
      show ?thesis
      proof (cases "py_int (strip l)")
        case None
        with "1.prems" inp False
        have "quantity_loop tk
            (print_py ''Invalid input. Please enter a whole number for quantity.'' w1) = Inl e"
          by (subst (asm) quantity_loop.simps) simp
        from "1.IH"(2) [OF inp refl refl False None this] show ?thesis .
      next
        case (Some n)
        show ?thesis
        proof (cases "n \<le> 0")
          case True
          with "1.prems" inp False Some
          have "quantity_loop tk
              (print_py ''Quantity must be a positive whole number.'' w1) = Inl e"
            by (subst (asm) quantity_loop.simps) simp
          from "1.IH"(3) [OF inp refl refl False Some True this] show ?thesis .
        next
          case nonpos: False
          with "1.prems" inp False Some show ?thesis
            by (subst (asm) quantity_loop.simps) simp
        qed
      qed
    qed
  qed
qed

lemma int_times_float_errors: "int_times_float q pr = Inl e \<Longrightarrow> e = OverflowError"
  by (auto simp: int_times_float_def float_of_int_def split: sum.splits pyfloat.splits)

lemma ticker_loop_errors:
  "\<forall>e. ticker_loop p w = Inl e \<longrightarrow> e = EOFError \<or> e = OverflowError"
proof (induction rule: ticker_loop_result_induct)
  case (eof p w e)
  then show ?case by (auto simp: input_py_def split: list.splits)
next
  case (quantity_error p w l w1 pr e)
  then show ?case by (auto dest: quantity_loop_errors)
next
  case (overflow p w l w1 pr q w2 e)
  then show ?case by (auto dest: int_times_float_errors)
qed simp_all












lemma py_int_nonempty: "py_int s = Some n \<Longrightarrow> strip s \<noteq> []"
  by (auto simp: py_int_def Let_def split: if_splits)







lemma upper_char_space: "is_space c \<Longrightarrow> upper_char c = c"
  by (auto simp: is_space_def upper_char_def Let_def)

lemma done_any_case:
  assumes "upper line = ''DONE''"
  shows "upper (strip line) = ''DONE''"
proof -
  from assms obtain a b c d where l: "line = [a, b, c, d]"
    and a: "upper_char a = CHR ''D''" and d: "upper_char d = CHR ''E''"
    by (auto simp: upper_def map_eq_Cons_conv)
  have "\<not> is_space a"
  proof
    assume "is_space a"
    with a upper_char_space [of a] have "is_space CHR ''D''" by simp
    then show False by (simp add: is_space_def)
  qed
  moreover have "\<not> is_space d"
  proof
    assume "is_space d"
    with d upper_char_space [of d] have "is_space CHR ''E''" by simp
    then show False by (simp add: is_space_def)
  qed
  ultimately have "strip line = line" by (simp add: strip_def l)
  with assms show ?thesis by simp
qed

text \<open>
  Claim C6. When the first line typed is the sentinel (\<^verbatim>\<open>done\<close> in any letter
  case, by \<open>done_any_case\<close>; surrounding blanks are stripped), the collector returns
  the empty portfolio and \<^verbatim>\<open>main\<close> ends through \<^verbatim>\<open>sys.exit()\<close> with status \<open>0\<close>:
  after the prompt it writes the closing line only (no report, no save prompt)
  and reads no further line.
\<close>

theorem done_first_exits_cleanly:
  assumes "stdin w = line # rest" and "upper (strip line) = ''DONE''"
  shows "get_user_portfolio w =
           Inr ([], w\<lparr>stdin := rest,
                  stdout := stdout w @
                    [Print ([CHR 0x0A] @ ''--- Enter Your Stock Holdings ---''),
                     Print ''Available stocks: NVDA, JNJ, V, COST, ASML, RY'',
                     Print ''Type 'done' when you have finished entering your stocks.'',
                     Prompt ''Enter stock ticker (e.g., NVDA): '']\<rparr>)
       \<and> main w =
           Exited 0 (w\<lparr>stdin := rest,
                  stdout := stdout w @
                    [Print ''<<< Welcome to the Simple Stock Portfolio Tracker >>>'',
                     Print ([CHR 0x0A] @ ''--- Enter Your Stock Holdings ---''),
                     Print ''Available stocks: NVDA, JNJ, V, COST, ASML, RY'',
                     Print ''Type 'done' when you have finished entering your stocks.'',
                     Prompt ''Enter stock ticker (e.g., NVDA): '',
                     Print ([CHR 0x0A] @ ''No stocks were entered. Application closing.'')]\<rparr>)"
proof -
  have keys: "join_comma (map fst STOCK_PRICES) = ''NVDA, JNJ, V, COST, ASML, RY''"
    by (simp add: STOCK_PRICES_def PRICE_LITERALS_def)
  have loop: "ticker_loop [] w' =
      Inr ([], w'\<lparr>stdin := rest, stdout := stdout w' @ [Prompt ''Enter stock ticker (e.g., NVDA): '']\<rparr>)"
    if "stdin w' = line # rest" for w'
    by (subst ticker_loop.simps) (simp add: input_py_def that assms(2))
  show ?thesis
    by (simp add: main_def get_user_portfolio_def loop print_py_def assms(1) keys nl_def)
qed

theorem done_first_exits_cleanly_witness:
  "stdin (console [''dOnE'', ''y'']) = ''dOnE'' # [''y'']
   \<and> upper (strip ''dOnE'') = ''DONE''
   \<and> main (console [''dOnE'', ''y'']) =
       Exited 0 ((console [''dOnE'', ''y''])\<lparr>stdin := [''y''],
          stdout := stdout (console [''dOnE'', ''y'']) @
            [Print ''<<< Welcome to the Simple Stock Portfolio Tracker >>>'',
             Print ([CHR 0x0A] @ ''--- Enter Your Stock Holdings ---''),
             Print ''Available stocks: NVDA, JNJ, V, COST, ASML, RY'',
             Print ''Type 'done' when you have finished entering your stocks.'',
             Prompt ''Enter stock ticker (e.g., NVDA): '',
             Print ([CHR 0x0A] @ ''No stocks were entered. Application closing.'')]\<rparr>)"
proof -
  have h1: "stdin (console [''dOnE'', ''y'']) = ''dOnE'' # [''y'']" by (simp add: console_def)
  have h2: "upper (strip ''dOnE'') = ''DONE''" by code_simp
  from done_first_exits_cleanly [OF h1 h2] h1 h2 show ?thesis by blast
qed

end
